theory Spec2Isabelle
  imports Main
begin

section \<open>Data model of the two paginated hooks\<close>

text \<open>
  The repository holds two instances of one pattern: \<open>useTraces\<close>
  (\<open>use-traces.tsx\<close>) and \<open>useWorkflowRuns\<close> (\<open>use-workflow-runs.ts\<close>). Each hands
  the infinite-query library a \<open>getNextPageParam\<close> callback and a \<open>select\<close> callback.
  Both callbacks are pure functions of their arguments and are embedded below.
  How the library retains pages across refetches is decided outside the repository's
  code and is not modelled: the callbacks are verified for every page sequence the
  library may hand them.

  A JavaScript value that may be \<open>undefined\<close> is an \<open>option\<close> (\<open>None\<close> is
  \<open>undefined\<close>). Reading a property of \<open>undefined\<close> throws a \<open>TypeError\<close>; a throw
  is the \<open>Inl\<close> branch of a sum.
\<close>

datatype js_error = TypeError

text \<open>A span of the traces list: the identifier \<open>traceId\<close> and a payload field.\<close>

record span =
  traceId :: string
  name :: string

text \<open>\<open>lastPage?.pagination?.hasMore\<close>: every link of the chain may be missing.\<close>

record pagination_info =
  hasMore :: "bool option"

record traces_page =
  spans :: "span list option"
  pagination :: "pagination_info option"

text \<open>A workflow run: the identifier \<open>runId\<close> and a payload field.\<close>

record run =
  runId :: string
  workflowName :: string

record runs_page =
  runs :: "run list option"

text \<open>The \<open>data\<close> argument of \<open>select\<close>: the retained pages and their page parameters.\<close>

record 'p infinite_data =
  pages :: "'p list"
  pageParams :: "nat list"

section \<open>The array operations the callbacks use\<close>

text \<open>
  \<open>Array.prototype.flatMap\<close>: a callback result that is an array is spliced into the
  output; any other result (here only \<open>undefined\<close> can occur) becomes one element of
  the output. The output is therefore a list of possibly-undefined elements.
\<close>

fun flatMap :: "('p \<Rightarrow> 'a list option) \<Rightarrow> 'p list \<Rightarrow> 'a option list" where
  "flatMap f [] = []"
| "flatMap f (p # ps) =
     (case f p of None \<Rightarrow> [None] | Some xs \<Rightarrow> map Some xs) @ flatMap f ps"

text \<open>
  The \<open>filter\<close> call of both \<open>select\<close> callbacks:
  \<^verbatim>\<open>
  .filter(x => {
    if (seen.has(x.id)) return false;
    seen.add(x.id);
    return true;
  })
  \<close>
  The closure's \<open>Set\<close> is threaded as the argument \<open>seen\<close>. Reading \<open>x.id\<close> of an
  undefined element throws, which ends the whole call.
\<close>

fun filter_seen :: "('a \<Rightarrow> string) \<Rightarrow> string set \<Rightarrow> 'a option list \<Rightarrow> js_error + 'a list" where
  "filter_seen key seen [] = Inr []"
| "filter_seen key seen (None # xs) = Inl TypeError"
| "filter_seen key seen (Some x # xs) =
     (if key x \<in> seen then filter_seen key seen xs
      else (case filter_seen key (insert (key x) seen) xs of
              Inl e \<Rightarrow> Inl e
            | Inr ys \<Rightarrow> Inr (x # ys)))"

section \<open>Adding one to a page parameter\<close>

text \<open>
  A page parameter is a JavaScript number: an IEEE 754 double whose value is a natural
  number (the first is \<open>initialPageParam: 0\<close>, each further one is a result of
  \<open>lastPageParam + 1\<close>). The sum \<open>lastPageParam + 1\<close> is the exact sum rounded to the
  nearest double, ties to the even significand:
  \<^item> below \<open>2^53\<close> every natural number is a double, and the sum is exact;
  \<^item> from \<open>2^53\<close> to below \<open>2^54\<close> the doubles are the even numbers, the exact sum
    lies half way between two of them, and the one with the even significand
    \<open>n div 2\<close> is taken: \<open>2^53 + 1\<close> is \<open>2^53\<close>, and \<open>(2^53 + 2) + 1\<close> is \<open>2^53 + 4\<close>;
  \<^item> from \<open>2^54\<close> on the doubles are 4 or more apart and the sum rounds back to
    \<open>lastPageParam\<close>.
  The argument is meant to be a natural number that is a double; no other value
  reaches the callbacks.
\<close>

definition js_plus_one :: "nat \<Rightarrow> nat" where
  "js_plus_one n =
     (if n < 2 ^ 53 then n + 1
      else if n < 2 ^ 54 then (if even (n div 2) then n else n + 2)
      else n)"

section \<open>The traces hook\<close>

text \<open>
  \<^verbatim>\<open>
  getNextPageParam: (lastPage, _, lastPageParam) => {
    if (lastPage?.pagination?.hasMore) { return lastPageParam + 1; }
    return undefined;
  }
  \<close>
  Optional chaining yields \<open>undefined\<close> where a link is missing, and \<open>undefined\<close> and
  \<open>false\<close> are both falsy.
\<close>

definition traces_getNextPageParam :: "traces_page option \<Rightarrow> nat \<Rightarrow> nat option" where
  "traces_getNextPageParam lastPage lastPageParam =
     (case Option.bind (Option.bind lastPage pagination) hasMore of
        Some True \<Rightarrow> Some (js_plus_one lastPageParam)
      | _ \<Rightarrow> None)"

text \<open>\<open>page.spans ?? []\<close>\<close>

definition spans_or_empty :: "traces_page \<Rightarrow> span list" where
  "spans_or_empty page = (case spans page of None \<Rightarrow> [] | Some ss \<Rightarrow> ss)"

text \<open>
  \<^verbatim>\<open>
  select: data => {
    const seen = new Set<string>();
    return data.pages.flatMap(page => page.spans ?? []).filter(span => ...traceId...);
  }
  \<close>
\<close>

definition selectTraces :: "traces_page infinite_data \<Rightarrow> js_error + span list" where
  "selectTraces data =
     filter_seen traceId {} (flatMap (\<lambda>page. Some (spans_or_empty page)) (pages data))"

section \<open>The workflow-runs hook\<close>

definition PER_PAGE :: nat where
  "PER_PAGE = 20"

text \<open>
  \<^verbatim>\<open>
  getNextPageParam: (lastPage, _, lastPageParam) => {
    if (lastPage.runs.length < PER_PAGE) { return undefined; }
    return lastPageParam + 1;
  }
  \<close>
  \<open>lastPage.runs.length\<close> is read without a guard: an undefined \<open>runs\<close> throws.
\<close>

definition runs_getNextPageParam :: "runs_page \<Rightarrow> nat \<Rightarrow> js_error + nat option" where
  "runs_getNextPageParam lastPage lastPageParam =
     (case runs lastPage of
        None \<Rightarrow> Inl TypeError
      | Some rs \<Rightarrow>
          if length rs < PER_PAGE then Inr None else Inr (Some (js_plus_one lastPageParam)))"

text \<open>
  \<^verbatim>\<open>
  select: data => {
    const seen = new Set<string>();
    return data.pages.flatMap(page => page.runs).filter(run => ...runId...);
  }
  \<close>
\<close>

definition selectRuns :: "runs_page infinite_data \<Rightarrow> js_error + run list" where
  "selectRuns data = filter_seen runId {} (flatMap runs (pages data))"

section \<open>The select callbacks with their Set on a heap\<close>

text \<open>
  Every invocation of a \<open>select\<close> callback runs \<open>const seen = new Set<string>()\<close> and
  then mutates that object with \<open>seen.add\<close>. To state what one invocation leaves
  behind for the next, the \<open>Set\<close> objects live on a heap: \<open>objs\<close> maps an address to
  the content of the \<open>Set\<close> at that address, and \<open>nextAddr\<close> is the first address not
  yet allocated. The arrays are values: \<open>flatMap\<close> and \<open>filter\<close> build new arrays and
  leave \<open>data.pages\<close> as it is.
\<close>

record heap =
  objs :: "nat \<Rightarrow> string set"
  nextAddr :: nat

text \<open>\<open>new Set()\<close>: an empty \<open>Set\<close> at a fresh address.\<close>

definition new_Set :: "heap \<Rightarrow> nat \<times> heap" where
  "new_Set h = (nextAddr h, \<lparr>objs = (objs h)(nextAddr h := {}), nextAddr = Suc (nextAddr h)\<rparr>)"

text \<open>\<open>seen.has(k)\<close> and \<open>seen.add(k)\<close> for the \<open>Set\<close> at address \<open>a\<close>.\<close>

definition Set_has :: "heap \<Rightarrow> nat \<Rightarrow> string \<Rightarrow> bool" where
  "Set_has h a k = (k \<in> objs h a)"

definition Set_add :: "heap \<Rightarrow> nat \<Rightarrow> string \<Rightarrow> heap" where
  "Set_add h a k = h\<lparr>objs := (objs h)(a := insert k (objs h a))\<rparr>"

text \<open>
  The filter call, with the closure holding the address \<open>a\<close> of \<open>seen\<close>. It returns
  the result (or the throw) together with the heap it leaves.
\<close>

fun filter_seen_heap ::
  "('a \<Rightarrow> string) \<Rightarrow> nat \<Rightarrow> heap \<Rightarrow> 'a option list \<Rightarrow> (js_error + 'a list) \<times> heap" where
  "filter_seen_heap key a h [] = (Inr [], h)"
| "filter_seen_heap key a h (None # xs) = (Inl TypeError, h)"
| "filter_seen_heap key a h (Some x # xs) =
     (if Set_has h a (key x) then filter_seen_heap key a h xs
      else (case filter_seen_heap key a (Set_add h a (key x)) xs of
              (Inl e, h') \<Rightarrow> (Inl e, h')
            | (Inr ys, h') \<Rightarrow> (Inr (x # ys), h')))"

definition selectTraces_heap ::
  "heap \<Rightarrow> traces_page infinite_data \<Rightarrow> (js_error + span list) \<times> heap" where
  "selectTraces_heap h data =
     (case new_Set h of
        (seen, h') \<Rightarrow>
          filter_seen_heap traceId seen h'
            (flatMap (\<lambda>page. Some (spans_or_empty page)) (pages data)))"

definition selectRuns_heap ::
  "heap \<Rightarrow> runs_page infinite_data \<Rightarrow> (js_error + run list) \<times> heap" where
  "selectRuns_heap h data =
     (case new_Set h of
        (seen, h') \<Rightarrow> filter_seen_heap runId seen h' (flatMap runs (pages data)))"

section \<open>Notions used to state the properties\<close>

text \<open>
  The record sequence of a page of runs. The hook reads \<open>page.runs\<close> directly; this
  function only names the records a page holds when properties are stated.
\<close>

definition page_runs :: "runs_page \<Rightarrow> run list" where
  "page_runs page = (case runs page of None \<Rightarrow> [] | Some rs \<Rightarrow> rs)"

text \<open>
  The filter callback run over a list without undefined elements: the same recursion
  as \<open>filter_seen\<close> where no read can throw.
\<close>

fun keep_unseen :: "('a \<Rightarrow> string) \<Rightarrow> string set \<Rightarrow> 'a list \<Rightarrow> 'a list" where
  "keep_unseen key seen [] = []"
| "keep_unseen key seen (x # xs) =
     (if key x \<in> seen then keep_unseen key seen xs
      else x # keep_unseen key (insert (key x) seen) xs)"

text \<open>
  The deduplication as the specification words it: a record of the flattened sequence
  is kept exactly when no earlier position carries the same identifier.
\<close>

definition first_occurrences :: "('a \<Rightarrow> string) \<Rightarrow> 'a list \<Rightarrow> 'a list" where
  "first_occurrences key xs =
     map (\<lambda>i. xs ! i)
       (filter (\<lambda>i. \<forall>j\<in>set [0..<i]. key (xs ! j) \<noteq> key (xs ! i)) [0..<length xs])"

text \<open>No two different positions of a sequence of identifier sets share an identifier.\<close>

definition pairwise_disjoint :: "'a set list \<Rightarrow> bool" where
  "pairwise_disjoint Ss =
     (\<forall>i\<in>set [0..<length Ss]. \<forall>j\<in>set [0..<length Ss]. i \<noteq> j \<longrightarrow> Ss ! i \<inter> Ss ! j = {})"

text \<open>
  Renaming a span to a run (\<open>traceId\<close> to \<open>runId\<close>) and a page of spans to a page
  of runs (\<open>spans\<close> to \<open>runs\<close>), used to compare the two \<open>select\<close> callbacks.
\<close>

definition as_run :: "span \<Rightarrow> run" where
  "as_run s = \<lparr>runId = traceId s, workflowName = name s\<rparr>"

definition as_runs_page :: "traces_page \<Rightarrow> runs_page" where
  "as_runs_page p = \<lparr>runs = map_option (map as_run) (spans p)\<rparr>"

section \<open>Fixtures of the repository's tests\<close>

text \<open>
  \<open>makeSpan\<close> and \<open>makeRun\<close> of the unit tests, and \<open>TRACES\<close> and
  \<open>tracesResponse\<close> of the end-to-end test (the five traces the stable backend returns
  for every fetch), restricted to the fields of the model.
\<close>

definition makeSpan :: "string \<Rightarrow> string \<Rightarrow> span" where
  "makeSpan tid nm = \<lparr>traceId = tid, name = nm\<rparr>"

definition makeRun :: "string \<Rightarrow> string \<Rightarrow> run" where
  "makeRun rid nm = \<lparr>runId = rid, workflowName = nm\<rparr>"

definition TRACES :: "span list" where
  "TRACES = [makeSpan ''aaa'' ''Agent Run Alpha'', makeSpan ''bbb'' ''Agent Run Bravo'',
             makeSpan ''ccc'' ''Agent Run Charlie'', makeSpan ''ddd'' ''Agent Run Delta'',
             makeSpan ''eee'' ''Agent Run Echo'']"

definition tracesResponse :: "span list \<Rightarrow> traces_page" where
  "tracesResponse ss = \<lparr>spans = Some ss, pagination = Some \<lparr>hasMore = Some False\<rparr>\<rparr>"

section \<open>Facts about the array operations\<close>

lemma filter_seen_defined:
  "filter_seen key seen (map Some xs) = Inr (keep_unseen key seen xs)"
  by (induction xs arbitrary: seen) auto

lemma filter_seen_undefined:
  "None \<in> set xs \<Longrightarrow> filter_seen key seen xs = Inl TypeError"
proof (induction xs arbitrary: seen)
  case Nil
  then show ?case by simp
next
  case (Cons a xs)
  show ?case
  proof (cases a)
    case None
    then show ?thesis by simp
  next
    case (Some x)
    with Cons.prems have "None \<in> set xs" by simp
    then have "\<And>s. filter_seen key s xs = Inl TypeError" by (rule Cons.IH)
    with Some show ?thesis by simp
  qed
qed

lemma flatMap_total:
  "flatMap (\<lambda>p. Some (g p)) ps = map Some (concat (map g ps))"
  by (induction ps) auto

lemma flatMap_runs_present:
  "\<forall>p\<in>set ps. runs p \<noteq> None \<Longrightarrow> flatMap runs ps = map Some (concat (map page_runs ps))"
  by (induction ps) (auto simp: page_runs_def)

lemma flatMap_runs_absent:
  "\<exists>p\<in>set ps. runs p = None \<Longrightarrow> None \<in> set (flatMap runs ps)"
  by (induction ps) auto

lemma selectTraces_eq:
  "selectTraces d = Inr (keep_unseen traceId {} (concat (map spans_or_empty (pages d))))"
  by (simp add: selectTraces_def flatMap_total filter_seen_defined)

lemma selectRuns_eq:
  "\<forall>p\<in>set (pages d). runs p \<noteq> None \<Longrightarrow>
   selectRuns d = Inr (keep_unseen runId {} (concat (map page_runs (pages d))))"
  by (simp add: selectRuns_def flatMap_runs_present filter_seen_defined)

lemma selectRuns_throws:
  "\<exists>p\<in>set (pages d). runs p = None \<Longrightarrow> selectRuns d = Inl TypeError"
  by (simp add: selectRuns_def flatMap_runs_absent filter_seen_undefined)

lemma set_keep_unseen:
  "set (keep_unseen key seen xs) \<subseteq> set xs"
  by (induction xs arbitrary: seen) auto

lemma keys_keep_unseen:
  "key ` set (keep_unseen key seen xs) = key ` set xs - seen"
  by (induction xs arbitrary: seen) auto

lemma distinct_keep_unseen:
  "distinct (map key (keep_unseen key seen xs))"
  by (induction xs arbitrary: seen) (auto simp: keys_keep_unseen)

lemma filter_keep_unseen:
  "filter (\<lambda>y. key y = k) (keep_unseen key seen xs) =
     (if k \<in> seen then []
      else (case find (\<lambda>x. key x = k) xs of None \<Rightarrow> [] | Some x \<Rightarrow> [x]))"
  by (induction xs arbitrary: seen) auto

lemma length_keep_unseen:
  "length (keep_unseen key seen xs) = card (key ` set xs - seen)"
proof -
  have "length (keep_unseen key seen xs) = length (map key (keep_unseen key seen xs))"
    by simp
  also have "\<dots> = card (set (map key (keep_unseen key seen xs)))"
    by (rule distinct_card [symmetric]) (rule distinct_keep_unseen)
  also have "\<dots> = card (key ` set xs - seen)"
    by (simp add: keys_keep_unseen)
  finally show ?thesis .
qed

lemma keep_unseen_append:
  "keep_unseen key seen (xs @ ys) =
     keep_unseen key seen xs @ keep_unseen key (seen \<union> key ` set xs) ys"
  by (induction xs arbitrary: seen) (auto simp: insert_absorb)

lemma keep_unseen_all_seen:
  "key ` set ys \<subseteq> seen \<Longrightarrow> keep_unseen key seen ys = []"
  by (induction ys) auto

lemma keep_unseen_distinct:
  "distinct (map key xs) \<Longrightarrow> key ` set xs \<inter> seen = {} \<Longrightarrow> keep_unseen key seen xs = xs"
  by (induction xs arbitrary: seen) auto

lemma keep_unseen_index:
  "keep_unseen key seen xs =
     map (\<lambda>i. xs ! i)
       (filter (\<lambda>i. key (xs ! i) \<notin> seen \<and> (\<forall>j<i. key (xs ! j) \<noteq> key (xs ! i))) [0..<length xs])"
proof (induction xs arbitrary: seen)
  case Nil
  then show ?case by simp
next
  case (Cons x xs)
  let ?P = "\<lambda>s ys i. key (ys ! i) \<notin> s \<and> (\<forall>j<i. key (ys ! j) \<noteq> key (ys ! i))"
  have upt: "[0..<length (x # xs)] = 0 # map Suc [0..<length xs]"
    by (simp add: upt_conv_Cons map_Suc_upt del: upt_Suc)
  have shift: "map (\<lambda>i. (x # xs) ! i) (map Suc js) = map (\<lambda>i. xs ! i) js" for js
    by simp
  have zero: "?P seen (x # xs) 0 \<longleftrightarrow> key x \<notin> seen"
    by simp
  have succ: "?P seen (x # xs) (Suc i) \<longleftrightarrow>
                key (xs ! i) \<notin> seen \<and> key x \<noteq> key (xs ! i) \<and> (\<forall>j<i. key (xs ! j) \<noteq> key (xs ! i))" for i
    by (simp add: All_less_Suc2)
  have tail: "filter (?P seen (x # xs)) (map Suc [0..<length xs]) =
                map Suc (filter (\<lambda>i. key (xs ! i) \<notin> seen \<and> key x \<noteq> key (xs ! i)
                                      \<and> (\<forall>j<i. key (xs ! j) \<noteq> key (xs ! i))) [0..<length xs])"
    unfolding filter_map o_def succ ..
  show ?case
  proof (cases "key x \<in> seen")
    case True
    then have same: "(key (xs ! i) \<notin> seen \<and> key x \<noteq> key (xs ! i) \<and> (\<forall>j<i. key (xs ! j) \<noteq> key (xs ! i)))
                      = ?P seen xs i" for i
      by auto
    have "map (\<lambda>i. (x # xs) ! i) (filter (?P seen (x # xs)) [0..<length (x # xs)])
            = map (\<lambda>i. xs ! i) (filter (?P seen xs) [0..<length xs])"
      unfolding upt filter.simps zero tail same using True by (simp only: if_False shift not_True_eq_False)
    with True show ?thesis
      by (simp only: keep_unseen.simps if_True Cons.IH)
  next
    case False
    then have same: "(key (xs ! i) \<notin> seen \<and> key x \<noteq> key (xs ! i) \<and> (\<forall>j<i. key (xs ! j) \<noteq> key (xs ! i)))
                      = ?P (insert (key x) seen) xs i" for i
      by auto
    have "map (\<lambda>i. (x # xs) ! i) (filter (?P seen (x # xs)) [0..<length (x # xs)])
            = x # map (\<lambda>i. xs ! i) (filter (?P (insert (key x) seen) xs) [0..<length xs])"
      unfolding upt filter.simps zero tail same using False by (simp only: not_False_eq_True if_True shift list.map nth_Cons_0)
    with False show ?thesis
      by (simp only: keep_unseen.simps if_False Cons.IH)
  qed
qed

lemma keep_unseen_first_occurrences:
  "keep_unseen key {} xs = first_occurrences key xs"
  by (simp add: keep_unseen_index first_occurrences_def Ball_def)

lemma keep_unseen_map:
  "(\<And>x. key' (f x) = key x) \<Longrightarrow> keep_unseen key' seen (map f xs) = map f (keep_unseen key seen xs)"
  by (induction xs arbitrary: seen) auto

lemma pairwise_disjoint_iff:
  "pairwise_disjoint Ss \<longleftrightarrow>
     (\<forall>i<length Ss. \<forall>j<length Ss. i \<noteq> j \<longrightarrow> Ss ! i \<inter> Ss ! j = {})"
  by (simp add: pairwise_disjoint_def Ball_def)

lemma pairwise_disjoint_Cons:
  "pairwise_disjoint (S # Ss) \<longleftrightarrow> (\<forall>T\<in>set Ss. S \<inter> T = {}) \<and> pairwise_disjoint Ss"
proof
  assume h: "pairwise_disjoint (S # Ss)"
  show "(\<forall>T\<in>set Ss. S \<inter> T = {}) \<and> pairwise_disjoint Ss"
  proof
    show "\<forall>T\<in>set Ss. S \<inter> T = {}"
    proof
      fix T assume "T \<in> set Ss"
      then obtain j where j: "j < length Ss" "Ss ! j = T"
        by (auto simp: in_set_conv_nth)
      from h have "(S # Ss) ! 0 \<inter> (S # Ss) ! Suc j = {}"
        unfolding pairwise_disjoint_iff using j(1) by (metis Suc_less_eq length_Cons nat.distinct(1) zero_less_Suc)
      with j show "S \<inter> T = {}" by simp
    qed
    show "pairwise_disjoint Ss"
      unfolding pairwise_disjoint_iff
    proof (intro allI impI)
      fix i j assume "i < length Ss" "j < length Ss" "i \<noteq> j"
      with h have "(S # Ss) ! Suc i \<inter> (S # Ss) ! Suc j = {}"
        unfolding pairwise_disjoint_iff by (metis Suc_less_eq length_Cons nat.inject)
      then show "Ss ! i \<inter> Ss ! j = {}" by simp
    qed
  qed
next
  assume h: "(\<forall>T\<in>set Ss. S \<inter> T = {}) \<and> pairwise_disjoint Ss"
  show "pairwise_disjoint (S # Ss)"
    unfolding pairwise_disjoint_iff
  proof (intro allI impI)
    fix i j assume a: "i < length (S # Ss)" "j < length (S # Ss)" "i \<noteq> j"
    show "(S # Ss) ! i \<inter> (S # Ss) ! j = {}"
    proof (cases i)
      case 0
      with a obtain j' where "j = Suc j'" "j' < length Ss" by (cases j) auto
      with 0 h show ?thesis by auto
    next
      case (Suc i')
      show ?thesis
      proof (cases j)
        case 0
        with Suc a h show ?thesis by auto
      next
        case (Suc j')
        with \<open>i = Suc i'\<close> a h show ?thesis
          by (auto simp: pairwise_disjoint_iff)
      qed
    qed
  qed
qed

lemma selectRuns_Inr_present:
  "selectRuns r = Inr zs \<Longrightarrow> \<forall>p\<in>set (pages r). runs p \<noteq> None"
proof (rule ccontr)
  assume ok: "selectRuns r = Inr zs" and "\<not> (\<forall>p\<in>set (pages r). runs p \<noteq> None)"
  then have "\<exists>p\<in>set (pages r). runs p = None" by simp
  then have "selectRuns r = Inl TypeError" by (rule selectRuns_throws)
  with ok show False by simp
qed

lemma flatMap_append:
  "flatMap f (ps @ qs) = flatMap f ps @ flatMap f qs"
  by (induction ps) auto

lemma find_append_first:
  "List.find P (xs @ ys) = (case List.find P xs of None \<Rightarrow> List.find P ys | Some x \<Rightarrow> Some x)"
  by (induction xs) auto

lemma keep_unseen_replicate:
  assumes "distinct (map key ss)"
  shows "keep_unseen key {} (concat (replicate (Suc m) ss)) = ss"
proof -
  have "key ` set (concat (replicate m ss)) \<subseteq> {} \<union> key ` set ss"
    by auto
  then have "keep_unseen key ({} \<union> key ` set ss) (concat (replicate m ss)) = []"
    by (rule keep_unseen_all_seen)
  moreover have "keep_unseen key {} ss = ss"
    using assms by (simp add: keep_unseen_distinct)
  ultimately show ?thesis
    by (simp add: keep_unseen_append)
qed

lemma pairwise_disjoint_Nil: "pairwise_disjoint []"
  by (simp add: pairwise_disjoint_def)

lemma distinct_concat_pages:
  "pairwise_disjoint (map (\<lambda>p. key ` set (g p)) ps) \<Longrightarrow>
   \<forall>p\<in>set ps. distinct (map key (g p)) \<Longrightarrow>
   distinct (map key (concat (map g ps)))"
proof (induction ps)
  case Nil
  then show ?case by simp
next
  case (Cons p ps)
  from Cons.prems(1) have dis: "\<forall>q\<in>set ps. key ` set (g p) \<inter> key ` set (g q) = {}"
    and rest: "pairwise_disjoint (map (\<lambda>p. key ` set (g p)) ps)"
    by (simp_all add: pairwise_disjoint_Cons)
  from rest Cons.prems(2) have "distinct (map key (concat (map g ps)))"
    by (simp add: Cons.IH)
  moreover from dis have "key ` set (g p) \<inter> key ` set (concat (map g ps)) = {}"
    by auto
  ultimately show ?case
    using Cons.prems(2) by simp
qed

lemma page_runs_as_runs_page:
  "page_runs (as_runs_page p) = map as_run (spans_or_empty p)"
  by (simp add: page_runs_def as_runs_page_def spans_or_empty_def split: option.split)

lemma js_plus_one_exact:
  "n < 2 ^ 53 \<Longrightarrow> js_plus_one n = n + 1"
  by (simp add: js_plus_one_def)

lemma js_plus_one_rounds:
  "js_plus_one (2 ^ 53) = 2 ^ 53 \<and> js_plus_one (2 ^ 53 + 2) = 2 ^ 53 + 4
   \<and> js_plus_one (2 ^ 54) = 2 ^ 54"
  by (simp add: js_plus_one_def)

lemma filter_seen_heap_result:
  "fst (filter_seen_heap key a h xs) = filter_seen key (objs h a) xs"
proof (induction xs arbitrary: h)
  case Nil
  then show ?case by simp
next
  case (Cons y xs)
  show ?case
  proof (cases y)
    case None
    then show ?thesis by simp
  next
    case (Some x)
    have step: "fst (filter_seen_heap key a (Set_add h a (key x)) xs)
                  = filter_seen key (insert (key x) (objs h a)) xs"
      by (simp add: Cons.IH Set_add_def)
    show ?thesis
    proof (cases "key x \<in> objs h a")
      case True
      with Some show ?thesis by (simp add: Set_has_def Cons.IH)
    next
      case False
      obtain res h' where run: "filter_seen_heap key a (Set_add h a (key x)) xs = (res, h')"
        by (cases "filter_seen_heap key a (Set_add h a (key x)) xs")
      with step have res: "filter_seen key (insert (key x) (objs h a)) xs = res" by simp
      from Some False run show ?thesis
        by (cases res) (simp_all add: Set_has_def res)
    qed
  qed
qed

lemma filter_seen_heap_frame:
  "b \<noteq> a \<Longrightarrow> objs (snd (filter_seen_heap key a h xs)) b = objs h b"
proof (induction xs arbitrary: h)
  case Nil
  then show ?case by simp
next
  case (Cons y xs)
  show ?case
  proof (cases y)
    case None
    then show ?thesis by simp
  next
    case (Some x)
    have step: "objs (snd (filter_seen_heap key a (Set_add h a (key x)) xs)) b = objs h b"
      using Cons.prems by (simp add: Cons.IH Set_add_def)
    obtain res h' where run: "filter_seen_heap key a (Set_add h a (key x)) xs = (res, h')"
      by (cases "filter_seen_heap key a (Set_add h a (key x)) xs")
    with step have "objs h' b = objs h b" by simp
    with Some run Cons.prems show ?thesis
      by (cases res) (simp_all add: Cons.IH)
  qed
qed

lemma selectTraces_heap_result:
  "fst (selectTraces_heap h d) = selectTraces d"
  by (simp add: selectTraces_heap_def new_Set_def filter_seen_heap_result selectTraces_def)

lemma selectRuns_heap_result:
  "fst (selectRuns_heap h r) = selectRuns r"
  by (simp add: selectRuns_heap_def new_Set_def filter_seen_heap_result selectRuns_def)

lemma selectTraces_heap_frame:
  "a < nextAddr h \<Longrightarrow> objs (snd (selectTraces_heap h d)) a = objs h a"
  by (simp add: selectTraces_heap_def new_Set_def filter_seen_heap_frame)

lemma selectRuns_heap_frame:
  "a < nextAddr h \<Longrightarrow> objs (snd (selectRuns_heap h r)) a = objs h a"
  by (simp add: selectRuns_heap_def new_Set_def filter_seen_heap_frame)

text \<open>
  The allocation is what separates the invocations: the filter run a second time on
  the \<open>Set\<close> object it has already filled keeps nothing.
\<close>

lemma filter_on_used_Set_keeps_nothing:
  "fst (filter_seen_heap traceId 0 \<lparr>objs = (\<lambda>a. {}), nextAddr = 1\<rparr> (map Some TRACES))
     = Inr TRACES
   \<and> fst (filter_seen_heap traceId 0
          (snd (filter_seen_heap traceId 0 \<lparr>objs = (\<lambda>a. {}), nextAddr = 1\<rparr> (map Some TRACES)))
          (map Some TRACES))
     = Inr []"
  by (simp add: TRACES_def makeSpan_def Set_has_def Set_add_def)

text \<open>Unfolding sets for evaluating the callbacks on the fixtures.\<close>

lemmas fixture_defs = makeSpan_def makeRun_def TRACES_def tracesResponse_def

lemmas eval_defs = selectTraces_def selectRuns_def spans_or_empty_def page_runs_def

section \<open>The projected list\<close>

text \<open>
  Claim C2. For every sequence of pages, the projected list produced by the select
  function (\<open>selectTraces\<close> over \<open>traceId\<close>, \<open>selectRuns\<close> over \<open>runId\<close>) contains
  no two records with the same identifier; consequently, looking up any identifier in
  the projected list yields at most one matching record. The traces select always
  produces a list; for the runs select the statement covers every list it produces.
\<close>

theorem select_no_duplicate_identifiers:
  "(\<exists>ys. selectTraces d = Inr ys \<and> distinct (map traceId ys)
         \<and> (\<forall>k. length (filter (\<lambda>s. traceId s = k) ys) \<le> 1))
   \<and> (\<forall>zs. selectRuns r = Inr zs \<longrightarrow>
         distinct (map runId zs) \<and> (\<forall>k. length (filter (\<lambda>s. runId s = k) zs) \<le> 1))"
proof (intro conjI allI impI)
  let ?ys = "keep_unseen traceId {} (concat (map spans_or_empty (pages d)))"
  have "\<forall>k. length (filter (\<lambda>s. traceId s = k) ?ys) \<le> 1"
    by (simp add: filter_keep_unseen split: option.split)
  then show "\<exists>ys. selectTraces d = Inr ys \<and> distinct (map traceId ys)
         \<and> (\<forall>k. length (filter (\<lambda>s. traceId s = k) ys) \<le> 1)"
    using selectTraces_eq [of d] distinct_keep_unseen [of traceId "{}"] by blast
next
  fix zs assume ok: "selectRuns r = Inr zs"
  then have "\<forall>p\<in>set (pages r). runs p \<noteq> None"
    by (rule selectRuns_Inr_present)
  with ok have zs: "zs = keep_unseen runId {} (concat (map page_runs (pages r)))"
    by (simp add: selectRuns_eq)
  show "distinct (map runId zs)"
    unfolding zs by (rule distinct_keep_unseen)
  show "length (filter (\<lambda>s. runId s = k) zs) \<le> 1" for k
    unfolding zs by (simp add: filter_keep_unseen split: option.split)
qed

text \<open>
  The offset-drift test of both test files: page 0 = [aaa, bbb, ccc] and
  page 1 = [bbb, ccc, ddd] project to [aaa, bbb, ccc, ddd].
\<close>

theorem select_no_duplicate_identifiers_witness:
  "selectTraces
     \<lparr>pages = [\<lparr>spans = Some [makeSpan ''aaa'' ''Trace aaa'', makeSpan ''bbb'' ''Trace bbb'',
                              makeSpan ''ccc'' ''Trace ccc''], pagination = None\<rparr>,
               \<lparr>spans = Some [makeSpan ''bbb'' ''Trace bbb'', makeSpan ''ccc'' ''Trace ccc'',
                              makeSpan ''ddd'' ''Trace ddd''], pagination = None\<rparr>],
      pageParams = [0, 1]\<rparr>
     = Inr [makeSpan ''aaa'' ''Trace aaa'', makeSpan ''bbb'' ''Trace bbb'',
            makeSpan ''ccc'' ''Trace ccc'', makeSpan ''ddd'' ''Trace ddd'']
   \<and> selectRuns
     \<lparr>pages = [\<lparr>runs = Some [makeRun ''aaa'' ''Run aaa'', makeRun ''bbb'' ''Run bbb'',
                             makeRun ''ccc'' ''Run ccc'']\<rparr>,
               \<lparr>runs = Some [makeRun ''bbb'' ''Run bbb'', makeRun ''ccc'' ''Run ccc'',
                             makeRun ''ddd'' ''Run ddd'']\<rparr>],
      pageParams = [0, 1]\<rparr>
     = Inr [makeRun ''aaa'' ''Run aaa'', makeRun ''bbb'' ''Run bbb'',
            makeRun ''ccc'' ''Run ccc'', makeRun ''ddd'' ''Run ddd'']
   \<and> distinct (map runId [makeRun ''aaa'' ''Run aaa'', makeRun ''bbb'' ''Run bbb'',
                            makeRun ''ccc'' ''Run ccc'', makeRun ''ddd'' ''Run ddd''])
   \<and> length (filter (\<lambda>s. runId s = ''bbb'')
        [makeRun ''aaa'' ''Run aaa'', makeRun ''bbb'' ''Run bbb'',
         makeRun ''ccc'' ''Run ccc'', makeRun ''ddd'' ''Run ddd'']) \<le> 1"
  using select_no_duplicate_identifiers
     [of "\<lparr>pages = [\<lparr>spans = Some [makeSpan ''aaa'' ''Trace aaa'', makeSpan ''bbb'' ''Trace bbb'',
                                   makeSpan ''ccc'' ''Trace ccc''], pagination = None\<rparr>,
                    \<lparr>spans = Some [makeSpan ''bbb'' ''Trace bbb'', makeSpan ''ccc'' ''Trace ccc'',
                                   makeSpan ''ddd'' ''Trace ddd''], pagination = None\<rparr>],
           pageParams = [0, 1]\<rparr>"
         "\<lparr>pages = [\<lparr>runs = Some [makeRun ''aaa'' ''Run aaa'', makeRun ''bbb'' ''Run bbb'',
                                  makeRun ''ccc'' ''Run ccc'']\<rparr>,
                    \<lparr>runs = Some [makeRun ''bbb'' ''Run bbb'', makeRun ''ccc'' ''Run ccc'',
                                  makeRun ''ddd'' ''Run ddd'']\<rparr>],
           pageParams = [0, 1]\<rparr>"]
  by (simp add: fixture_defs eval_defs)

text \<open>
  Claim C3. Appending to the page sequence a page all of whose record identifiers
  already occur in earlier pages leaves the output of the traces projector unchanged.
  In particular, for every \<open>n \<ge> 1\<close>, projecting \<open>n\<close> copies of one page of 5 records
  with distinct identifiers yields exactly those 5 records, each identifier once; and
  the output is never longer than the number of distinct identifiers in the retained
  pages.
\<close>

theorem refetch_of_known_records_changes_nothing:
  "(traceId ` set (spans_or_empty p) \<subseteq> traceId ` set (concat (map spans_or_empty (pages d)))
      \<longrightarrow> selectTraces \<lparr>pages = pages d @ [p], pageParams = pp\<rparr> = selectTraces d)
   \<and> (1 \<le> n \<and> length ss = 5 \<and> distinct (map traceId ss)
      \<longrightarrow> (\<exists>ys. selectTraces \<lparr>pages = replicate n \<lparr>spans = Some ss, pagination = pg\<rparr>,
                                 pageParams = pp\<rparr> = Inr ys
                \<and> ys = ss \<and> length ys = 5
                \<and> (\<forall>k\<in>traceId ` set ss. length (filter (\<lambda>s. traceId s = k) ys) = 1)))
   \<and> (\<exists>ys. selectTraces d = Inr ys
          \<and> length ys \<le> card (traceId ` set (concat (map spans_or_empty (pages d)))))"
proof (intro conjI impI)
  assume sub: "traceId ` set (spans_or_empty p) \<subseteq> traceId ` set (concat (map spans_or_empty (pages d)))"
  then have "keep_unseen traceId ({} \<union> traceId ` set (concat (map spans_or_empty (pages d))))
               (spans_or_empty p) = []"
    by (intro keep_unseen_all_seen) simp
  then show "selectTraces \<lparr>pages = pages d @ [p], pageParams = pp\<rparr> = selectTraces d"
    by (simp add: selectTraces_eq keep_unseen_append)
next
  assume h: "1 \<le> n \<and> length ss = 5 \<and> distinct (map traceId ss)"
  then obtain m where n: "n = Suc m" by (cases n) auto
  have flat: "concat (map spans_or_empty (replicate n \<lparr>spans = Some ss, pagination = pg\<rparr>))
                = concat (replicate n ss)"
    by (simp add: spans_or_empty_def)
  have sel: "selectTraces \<lparr>pages = replicate n \<lparr>spans = Some ss, pagination = pg\<rparr>, pageParams = pp\<rparr>
               = Inr ss"
  proof -
    have "selectTraces \<lparr>pages = replicate n \<lparr>spans = Some ss, pagination = pg\<rparr>, pageParams = pp\<rparr>
            = Inr (keep_unseen traceId {} (concat (replicate n ss)))"
      by (simp only: selectTraces_eq infinite_data.simps flat)
    also from h have "keep_unseen traceId {} (concat (replicate n ss)) = ss"
      unfolding n by (intro keep_unseen_replicate) simp
    finally show ?thesis .
  qed
  have once: "length (filter (\<lambda>s. traceId s = k) ss) = 1" if "k \<in> traceId ` set ss" for k
  proof -
    have "keep_unseen traceId {} ss = ss"
      using h by (simp add: keep_unseen_distinct)
    then have "filter (\<lambda>s. traceId s = k) ss
                 = (case List.find (\<lambda>x. traceId x = k) ss of None \<Rightarrow> [] | Some x \<Rightarrow> [x])"
      using filter_keep_unseen [of traceId k "{}" ss] by simp
    moreover from that have "List.find (\<lambda>x. traceId x = k) ss \<noteq> None"
      by (auto simp: find_None_iff)
    ultimately show ?thesis by (auto split: option.splits)
  qed
  from sel once h
  show "\<exists>ys. selectTraces \<lparr>pages = replicate n \<lparr>spans = Some ss, pagination = pg\<rparr>,
                                 pageParams = pp\<rparr> = Inr ys
                \<and> ys = ss \<and> length ys = 5
                \<and> (\<forall>k\<in>traceId ` set ss. length (filter (\<lambda>s. traceId s = k) ys) = 1)"
    by simp
next
  show "\<exists>ys. selectTraces d = Inr ys
          \<and> length ys \<le> card (traceId ` set (concat (map spans_or_empty (pages d))))"
    by (simp add: selectTraces_eq length_keep_unseen)
qed

text \<open>
  The stable backend of the end-to-end test: a refetch that returns \<open>TRACES\<close> again
  changes nothing, and three copies of the page project to \<open>TRACES\<close> itself.
\<close>

theorem refetch_of_known_records_changes_nothing_witness:
  "traceId ` set (spans_or_empty (tracesResponse TRACES))
     \<subseteq> traceId ` set (concat (map spans_or_empty
                         (pages \<lparr>pages = [tracesResponse TRACES], pageParams = [0]\<rparr>)))
   \<and> selectTraces \<lparr>pages = pages \<lparr>pages = [tracesResponse TRACES], pageParams = [0]\<rparr>
                             @ [tracesResponse TRACES], pageParams = [0, 0]\<rparr>
       = selectTraces \<lparr>pages = [tracesResponse TRACES], pageParams = [0]\<rparr>
   \<and> (1::nat) \<le> 3 \<and> length TRACES = 5 \<and> distinct (map traceId TRACES)
   \<and> selectTraces \<lparr>pages = replicate 3 \<lparr>spans = Some TRACES, pagination = None\<rparr>,
                    pageParams = [0, 0, 0]\<rparr> = Inr TRACES
   \<and> length (filter (\<lambda>s. traceId s = ''ccc'') TRACES) = 1"
  using refetch_of_known_records_changes_nothing
          [of "tracesResponse TRACES" "\<lparr>pages = [tracesResponse TRACES], pageParams = [0]\<rparr>"
              "[0, 0]" 3 TRACES None]
        refetch_of_known_records_changes_nothing
          [of "tracesResponse TRACES" "\<lparr>pages = [tracesResponse TRACES], pageParams = [0]\<rparr>"
              "[0, 0, 0]" 3 TRACES None]
  by (simp add: fixture_defs eval_defs)

text \<open>
  Claim C4. When an identifier occurs in more than one page, the projected list of the
  traces select holds exactly one record for it: the occurrence of the earliest page
  that has the identifier (the first one within that page), with that occurrence's
  payload fields.
\<close>

theorem first_seen_wins:
  assumes "pages d = ps1 @ p # ps2"
      and "\<forall>q\<in>set ps1. k \<notin> traceId ` set (spans_or_empty q)"
      and "List.find (\<lambda>s. traceId s = k) (spans_or_empty p) = Some x"
  shows "\<exists>ys. selectTraces d = Inr ys \<and> filter (\<lambda>s. traceId s = k) ys = [x]"
proof -
  from assms(2) have "List.find (\<lambda>s. traceId s = k) (concat (map spans_or_empty ps1)) = None"
    by (auto simp: find_None_iff)
  with assms(3)
  have "List.find (\<lambda>s. traceId s = k) (concat (map spans_or_empty (pages d))) = Some x"
    by (simp add: assms(1) find_append_first)
  then show ?thesis
    by (simp add: selectTraces_eq filter_keep_unseen)
qed

text \<open>
  The test of the repository: identifier \<open>aaa\<close> named "First Alpha" in an earlier page
  and "Stale Alpha" in a later one keeps "First Alpha".
\<close>

theorem first_seen_wins_witness:
  "pages \<lparr>pages = [\<lparr>spans = Some [makeSpan ''bbb'' ''Trace bbb''], pagination = None\<rparr>,
                    \<lparr>spans = Some [makeSpan ''aaa'' ''First Alpha''], pagination = None\<rparr>,
                    \<lparr>spans = Some [makeSpan ''aaa'' ''Stale Alpha''], pagination = None\<rparr>],
          pageParams = [0, 1, 2]\<rparr>
     = [\<lparr>spans = Some [makeSpan ''bbb'' ''Trace bbb''], pagination = None\<rparr>]
       @ \<lparr>spans = Some [makeSpan ''aaa'' ''First Alpha''], pagination = None\<rparr>
       # [\<lparr>spans = Some [makeSpan ''aaa'' ''Stale Alpha''], pagination = None\<rparr>]
   \<and> ''aaa'' \<notin> traceId ` set (spans_or_empty
                   \<lparr>spans = Some [makeSpan ''bbb'' ''Trace bbb''], pagination = None\<rparr>)
   \<and> List.find (\<lambda>s. traceId s = ''aaa'')
        (spans_or_empty \<lparr>spans = Some [makeSpan ''aaa'' ''First Alpha''], pagination = None\<rparr>)
       = Some (makeSpan ''aaa'' ''First Alpha'')
   \<and> selectTraces
        \<lparr>pages = [\<lparr>spans = Some [makeSpan ''bbb'' ''Trace bbb''], pagination = None\<rparr>,
                  \<lparr>spans = Some [makeSpan ''aaa'' ''First Alpha''], pagination = None\<rparr>,
                  \<lparr>spans = Some [makeSpan ''aaa'' ''Stale Alpha''], pagination = None\<rparr>],
         pageParams = [0, 1, 2]\<rparr>
       = Inr [makeSpan ''bbb'' ''Trace bbb'', makeSpan ''aaa'' ''First Alpha'']
   \<and> filter (\<lambda>s. traceId s = ''aaa'')
        [makeSpan ''bbb'' ''Trace bbb'', makeSpan ''aaa'' ''First Alpha'']
       = [makeSpan ''aaa'' ''First Alpha'']"
  using first_seen_wins
          [of "\<lparr>pages = [\<lparr>spans = Some [makeSpan ''bbb'' ''Trace bbb''], pagination = None\<rparr>,
                         \<lparr>spans = Some [makeSpan ''aaa'' ''First Alpha''], pagination = None\<rparr>,
                         \<lparr>spans = Some [makeSpan ''aaa'' ''Stale Alpha''], pagination = None\<rparr>],
                pageParams = [0, 1, 2]\<rparr>"
              "[\<lparr>spans = Some [makeSpan ''bbb'' ''Trace bbb''], pagination = None\<rparr>]"
              "\<lparr>spans = Some [makeSpan ''aaa'' ''First Alpha''], pagination = None\<rparr>"
              "[\<lparr>spans = Some [makeSpan ''aaa'' ''Stale Alpha''], pagination = None\<rparr>]"
              "''aaa''" "makeSpan ''aaa'' ''First Alpha''"]
  by (simp add: fixture_defs eval_defs)

text \<open>
  Claim C5, as amended. For every sequence of pages whose identifier sets are pairwise
  disjoint and none of whose pages repeats an identifier within itself, the projected
  list equals the concatenation of the pages' record sequences in page order, each
  page's records in their original order. This holds for the traces select and for
  every list the runs select produces.
\<close>

theorem order_preserved_for_disjoint_pages:
  "(pairwise_disjoint (map (\<lambda>p. traceId ` set (spans_or_empty p)) (pages d))
      \<and> (\<forall>p\<in>set (pages d). distinct (map traceId (spans_or_empty p)))
      \<longrightarrow> selectTraces d = Inr (concat (map spans_or_empty (pages d))))
   \<and> (pairwise_disjoint (map (\<lambda>p. runId ` set (page_runs p)) (pages r))
      \<and> (\<forall>p\<in>set (pages r). distinct (map runId (page_runs p)))
      \<longrightarrow> (\<forall>zs. selectRuns r = Inr zs \<longrightarrow> zs = concat (map page_runs (pages r))))"
proof (intro conjI impI allI)
  assume "pairwise_disjoint (map (\<lambda>p. traceId ` set (spans_or_empty p)) (pages d))
      \<and> (\<forall>p\<in>set (pages d). distinct (map traceId (spans_or_empty p)))"
  then have "distinct (map traceId (concat (map spans_or_empty (pages d))))"
    by (intro distinct_concat_pages) simp_all
  then show "selectTraces d = Inr (concat (map spans_or_empty (pages d)))"
    by (simp add: selectTraces_eq keep_unseen_distinct)
next
  fix zs
  assume h: "pairwise_disjoint (map (\<lambda>p. runId ` set (page_runs p)) (pages r))
      \<and> (\<forall>p\<in>set (pages r). distinct (map runId (page_runs p)))"
    and ok: "selectRuns r = Inr zs"
  from h have "distinct (map runId (concat (map page_runs (pages r))))"
    by (intro distinct_concat_pages) simp_all
  moreover from ok have "\<forall>p\<in>set (pages r). runs p \<noteq> None"
    by (rule selectRuns_Inr_present)
  ultimately show "zs = concat (map page_runs (pages r))"
    using ok by (simp add: selectRuns_eq keep_unseen_distinct)
qed

theorem order_preserved_for_disjoint_pages_witness:
  "pairwise_disjoint (map (\<lambda>p. traceId ` set (spans_or_empty p))
      (pages \<lparr>pages = [\<lparr>spans = Some [makeSpan ''aaa'' ''Trace aaa'', makeSpan ''bbb'' ''Trace bbb''],
                         pagination = None\<rparr>,
                        \<lparr>spans = Some [makeSpan ''ccc'' ''Trace ccc'', makeSpan ''ddd'' ''Trace ddd''],
                         pagination = None\<rparr>], pageParams = [0, 1]\<rparr>))
   \<and> distinct (map traceId [makeSpan ''aaa'' ''Trace aaa'', makeSpan ''bbb'' ''Trace bbb''])
   \<and> distinct (map traceId [makeSpan ''ccc'' ''Trace ccc'', makeSpan ''ddd'' ''Trace ddd''])
   \<and> selectTraces
        \<lparr>pages = [\<lparr>spans = Some [makeSpan ''aaa'' ''Trace aaa'', makeSpan ''bbb'' ''Trace bbb''],
                   pagination = None\<rparr>,
                  \<lparr>spans = Some [makeSpan ''ccc'' ''Trace ccc'', makeSpan ''ddd'' ''Trace ddd''],
                   pagination = None\<rparr>], pageParams = [0, 1]\<rparr>
       = Inr [makeSpan ''aaa'' ''Trace aaa'', makeSpan ''bbb'' ''Trace bbb'',
              makeSpan ''ccc'' ''Trace ccc'', makeSpan ''ddd'' ''Trace ddd'']
   \<and> pairwise_disjoint (map (\<lambda>p. runId ` set (page_runs p))
      (pages \<lparr>pages = [\<lparr>runs = Some [makeRun ''aaa'' ''Run aaa'', makeRun ''bbb'' ''Run bbb'']\<rparr>,
                        \<lparr>runs = Some [makeRun ''ccc'' ''Run ccc'', makeRun ''ddd'' ''Run ddd'']\<rparr>],
              pageParams = [0, 1]\<rparr>))
   \<and> distinct (map runId [makeRun ''aaa'' ''Run aaa'', makeRun ''bbb'' ''Run bbb''])
   \<and> distinct (map runId [makeRun ''ccc'' ''Run ccc'', makeRun ''ddd'' ''Run ddd''])
   \<and> selectRuns
        \<lparr>pages = [\<lparr>runs = Some [makeRun ''aaa'' ''Run aaa'', makeRun ''bbb'' ''Run bbb'']\<rparr>,
                  \<lparr>runs = Some [makeRun ''ccc'' ''Run ccc'', makeRun ''ddd'' ''Run ddd'']\<rparr>],
         pageParams = [0, 1]\<rparr>
       = Inr [makeRun ''aaa'' ''Run aaa'', makeRun ''bbb'' ''Run bbb'',
              makeRun ''ccc'' ''Run ccc'', makeRun ''ddd'' ''Run ddd'']"
  using order_preserved_for_disjoint_pages
          [of "\<lparr>pages = [\<lparr>spans = Some [makeSpan ''aaa'' ''Trace aaa'', makeSpan ''bbb'' ''Trace bbb''],
                          pagination = None\<rparr>,
                         \<lparr>spans = Some [makeSpan ''ccc'' ''Trace ccc'', makeSpan ''ddd'' ''Trace ddd''],
                          pagination = None\<rparr>], pageParams = [0, 1]\<rparr>"
              "\<lparr>pages = [\<lparr>runs = Some [makeRun ''aaa'' ''Run aaa'', makeRun ''bbb'' ''Run bbb'']\<rparr>,
                         \<lparr>runs = Some [makeRun ''ccc'' ''Run ccc'', makeRun ''ddd'' ''Run ddd'']\<rparr>],
                pageParams = [0, 1]\<rparr>"]
  by (auto simp: fixture_defs eval_defs pairwise_disjoint_Cons pairwise_disjoint_Nil)

text \<open>
  Without the condition on each single page the statement fails: one page
  holding the identifier \<open>aaa\<close> twice is trivially pairwise disjoint from the other
  pages (there are none), yet the filter drops the second record, so the projected
  list is shorter than the concatenation.
\<close>

theorem order_preservation_counterexample:
  "pairwise_disjoint (map (\<lambda>p. traceId ` set (spans_or_empty p))
      (pages \<lparr>pages = [\<lparr>spans = Some [makeSpan ''aaa'' ''Alpha'', makeSpan ''aaa'' ''Alpha again''],
                         pagination = None\<rparr>], pageParams = [0]\<rparr>))
   \<and> concat (map spans_or_empty
      (pages \<lparr>pages = [\<lparr>spans = Some [makeSpan ''aaa'' ''Alpha'', makeSpan ''aaa'' ''Alpha again''],
                         pagination = None\<rparr>], pageParams = [0]\<rparr>))
     = [makeSpan ''aaa'' ''Alpha'', makeSpan ''aaa'' ''Alpha again'']
   \<and> selectTraces \<lparr>pages = [\<lparr>spans = Some [makeSpan ''aaa'' ''Alpha'', makeSpan ''aaa'' ''Alpha again''],
                              pagination = None\<rparr>], pageParams = [0]\<rparr>
     = Inr [makeSpan ''aaa'' ''Alpha'']
   \<and> selectTraces \<lparr>pages = [\<lparr>spans = Some [makeSpan ''aaa'' ''Alpha'', makeSpan ''aaa'' ''Alpha again''],
                              pagination = None\<rparr>], pageParams = [0]\<rparr>
     \<noteq> Inr (concat (map spans_or_empty
      (pages \<lparr>pages = [\<lparr>spans = Some [makeSpan ''aaa'' ''Alpha'', makeSpan ''aaa'' ''Alpha again''],
                         pagination = None\<rparr>], pageParams = [0]\<rparr>)))"
  by (simp add: fixture_defs eval_defs pairwise_disjoint_Cons pairwise_disjoint_Nil)

text \<open>
  Claim C6, as amended. The traces select never throws; a page whose \<open>spans\<close> are
  absent or empty contributes no records to it, and the empty page list projects to
  the empty list. The runs select projects the empty page list to the empty list and
  a page with empty \<open>runs\<close> contributes nothing to it; it produces a list exactly when
  the \<open>runs\<close> of every page are present, as its page type requires.
\<close>

theorem absent_or_empty_pages:
  "(\<exists>ys. selectTraces d = Inr ys)
   \<and> selectTraces \<lparr>pages = [], pageParams = pp\<rparr> = Inr []
   \<and> (spans p = None \<or> spans p = Some []
      \<longrightarrow> selectTraces \<lparr>pages = ps1 @ p # ps2, pageParams = pp\<rparr>
          = selectTraces \<lparr>pages = ps1 @ ps2, pageParams = pp'\<rparr>)
   \<and> selectRuns \<lparr>pages = [], pageParams = pp\<rparr> = Inr []
   \<and> (runs q = Some []
      \<longrightarrow> selectRuns \<lparr>pages = rs1 @ q # rs2, pageParams = pp\<rparr>
          = selectRuns \<lparr>pages = rs1 @ rs2, pageParams = pp'\<rparr>)
   \<and> ((\<exists>zs. selectRuns r = Inr zs) \<longleftrightarrow> (\<forall>q\<in>set (pages r). runs q \<noteq> None))"
proof (intro conjI impI)
  show "\<exists>ys. selectTraces d = Inr ys"
    by (simp add: selectTraces_eq)
  show "selectTraces \<lparr>pages = [], pageParams = pp\<rparr> = Inr []"
    by (simp add: selectTraces_def)
  show "selectRuns \<lparr>pages = [], pageParams = pp\<rparr> = Inr []"
    by (simp add: selectRuns_def)
  show "(\<exists>zs. selectRuns r = Inr zs) \<longleftrightarrow> (\<forall>q\<in>set (pages r). runs q \<noteq> None)"
    using selectRuns_eq [of r] selectRuns_Inr_present [of r] by blast
next
  assume "spans p = None \<or> spans p = Some []"
  then have "spans_or_empty p = []"
    by (auto simp: spans_or_empty_def)
  then show "selectTraces \<lparr>pages = ps1 @ p # ps2, pageParams = pp\<rparr>
          = selectTraces \<lparr>pages = ps1 @ ps2, pageParams = pp'\<rparr>"
    by (simp add: selectTraces_eq)
next
  assume "runs q = Some []"
  then have "flatMap runs (rs1 @ q # rs2) = flatMap runs (rs1 @ rs2)"
    by (simp add: flatMap_append)
  then show "selectRuns \<lparr>pages = rs1 @ q # rs2, pageParams = pp\<rparr>
          = selectRuns \<lparr>pages = rs1 @ rs2, pageParams = pp'\<rparr>"
    by (simp add: selectRuns_def)
qed

theorem absent_or_empty_pages_witness:
  "spans \<lparr>spans = None, pagination = None\<rparr> = None
   \<and> selectTraces \<lparr>pages = [\<lparr>spans = Some [makeSpan ''aaa'' ''Trace aaa''], pagination = None\<rparr>]
                           @ \<lparr>spans = None, pagination = None\<rparr>
                           # [\<lparr>spans = Some [makeSpan ''bbb'' ''Trace bbb''], pagination = None\<rparr>],
                    pageParams = [0, 1, 2]\<rparr>
       = selectTraces \<lparr>pages = [\<lparr>spans = Some [makeSpan ''aaa'' ''Trace aaa''], pagination = None\<rparr>]
                           @ [\<lparr>spans = Some [makeSpan ''bbb'' ''Trace bbb''], pagination = None\<rparr>],
                    pageParams = [0, 1]\<rparr>
   \<and> selectTraces \<lparr>pages = [\<lparr>spans = Some [makeSpan ''aaa'' ''Trace aaa''], pagination = None\<rparr>]
                           @ \<lparr>spans = None, pagination = None\<rparr>
                           # [\<lparr>spans = Some [makeSpan ''bbb'' ''Trace bbb''], pagination = None\<rparr>],
                    pageParams = [0, 1, 2]\<rparr>
       = Inr [makeSpan ''aaa'' ''Trace aaa'', makeSpan ''bbb'' ''Trace bbb'']
   \<and> runs \<lparr>runs = Some []\<rparr> = Some []
   \<and> selectRuns \<lparr>pages = [\<lparr>runs = Some [makeRun ''aaa'' ''Run aaa'']\<rparr>]
                         @ \<lparr>runs = Some []\<rparr> # [\<lparr>runs = Some [makeRun ''bbb'' ''Run bbb'']\<rparr>],
                  pageParams = [0, 1, 2]\<rparr>
       = selectRuns \<lparr>pages = [\<lparr>runs = Some [makeRun ''aaa'' ''Run aaa'']\<rparr>]
                         @ [\<lparr>runs = Some [makeRun ''bbb'' ''Run bbb'']\<rparr>],
                  pageParams = [0, 1]\<rparr>
   \<and> runs \<lparr>runs = Some [makeRun ''aaa'' ''Run aaa'']\<rparr> \<noteq> None
   \<and> runs \<lparr>runs = Some [makeRun ''bbb'' ''Run bbb'']\<rparr> \<noteq> None
   \<and> selectRuns \<lparr>pages = [\<lparr>runs = Some [makeRun ''aaa'' ''Run aaa'']\<rparr>,
                          \<lparr>runs = Some [makeRun ''bbb'' ''Run bbb'']\<rparr>], pageParams = [0, 1]\<rparr>
       = Inr [makeRun ''aaa'' ''Run aaa'', makeRun ''bbb'' ''Run bbb'']"
  using absent_or_empty_pages
          [of "\<lparr>pages = [], pageParams = []\<rparr>" "[0, 1, 2]" "\<lparr>spans = None, pagination = None\<rparr>"
              "[\<lparr>spans = Some [makeSpan ''aaa'' ''Trace aaa''], pagination = None\<rparr>]"
              "[\<lparr>spans = Some [makeSpan ''bbb'' ''Trace bbb''], pagination = None\<rparr>]"
              "[0, 1]" "\<lparr>runs = Some []\<rparr>"
              "[\<lparr>runs = Some [makeRun ''aaa'' ''Run aaa'']\<rparr>]"
              "[\<lparr>runs = Some [makeRun ''bbb'' ''Run bbb'']\<rparr>]"
              "\<lparr>pages = [\<lparr>runs = Some [makeRun ''aaa'' ''Run aaa'']\<rparr>,
                         \<lparr>runs = Some [makeRun ''bbb'' ''Run bbb'']\<rparr>], pageParams = [0, 1]\<rparr>"]
  by (simp add: fixture_defs eval_defs)

text \<open>
  For absent record sequences the unamended statement fails on the runs select, which
  has no \<open>?? []\<close>: for a page with absent \<open>runs\<close>, \<open>flatMap\<close> puts \<open>undefined\<close> into
  the flattened array and the filter callback throws when it reads \<open>run.runId\<close>. The
  input is the "undefined spans" test of the traces select, renamed.
\<close>

theorem absent_runs_counterexample:
  "runs \<lparr>runs = None\<rparr> = None
   \<and> selectRuns \<lparr>pages = [\<lparr>runs = Some [makeRun ''aaa'' ''Run aaa'']\<rparr>, \<lparr>runs = None\<rparr>,
                          \<lparr>runs = Some [makeRun ''bbb'' ''Run bbb'']\<rparr>], pageParams = [0, 1, 2]\<rparr>
       = Inl TypeError
   \<and> selectRuns \<lparr>pages = [\<lparr>runs = None\<rparr>], pageParams = [0]\<rparr> \<noteq> Inr []"
  by (simp add: fixture_defs eval_defs)

text \<open>
  Claim C8. The projector is a deterministic pure function: two invocations on
  value-equal sequences of retained pages give value-equal outputs in the same order.
  With the \<open>Set\<close> objects on a heap this says: whatever heaps \<open>h\<close> and \<open>h'\<close> the two
  invocations start from, equal page sequences give equal outputs; in particular the
  invocation that starts from the heap the previous one left behind, where the
  previous \<open>seen\<close> still holds every identifier, returns the same list again. Each
  invocation leaves every \<open>Set\<close> that existed before it untouched, and its output is
  the output of the state-free model used for the other claims.
\<close>

theorem select_deterministic:
  "(pages d = pages d' \<longrightarrow> fst (selectTraces_heap h d) = fst (selectTraces_heap h' d'))
   \<and> (pages r = pages r' \<longrightarrow> fst (selectRuns_heap h r) = fst (selectRuns_heap h' r'))
   \<and> fst (selectTraces_heap (snd (selectTraces_heap h d)) d) = fst (selectTraces_heap h d)
   \<and> fst (selectRuns_heap (snd (selectRuns_heap h r)) r) = fst (selectRuns_heap h r)
   \<and> (\<forall>a<nextAddr h. objs (snd (selectTraces_heap h d)) a = objs h a
                      \<and> objs (snd (selectRuns_heap h r)) a = objs h a)
   \<and> fst (selectTraces_heap h d) = selectTraces d
   \<and> fst (selectRuns_heap h r) = selectRuns r"
proof -
  have "selectTraces d = selectTraces d'" if "pages d = pages d'"
    using that by (simp add: selectTraces_def)
  moreover have "selectRuns r = selectRuns r'" if "pages r = pages r'"
    using that by (simp add: selectRuns_def)
  ultimately show ?thesis
    by (simp add: selectTraces_heap_result selectRuns_heap_result
                  selectTraces_heap_frame selectRuns_heap_frame)
qed

text \<open>
  Two invocations on the five traces of the stable backend, the second from the heap
  the first left (its \<open>seen\<close> at address 0 holds all five identifiers): both return the
  five traces. The same for a page of runs.
\<close>

theorem select_deterministic_witness:
  "pages \<lparr>pages = [tracesResponse TRACES], pageParams = [0]\<rparr>
     = pages \<lparr>pages = [tracesResponse TRACES], pageParams = [7]\<rparr>
   \<and> selectTraces_heap \<lparr>objs = (\<lambda>a. {}), nextAddr = 0\<rparr>
        \<lparr>pages = [tracesResponse TRACES], pageParams = [0]\<rparr>
     = (Inr TRACES,
        \<lparr>objs = (\<lambda>a. {})(0 := {''aaa'', ''bbb'', ''ccc'', ''ddd'', ''eee''}), nextAddr = 1\<rparr>)
   \<and> fst (selectTraces_heap
          \<lparr>objs = (\<lambda>a. {})(0 := {''aaa'', ''bbb'', ''ccc'', ''ddd'', ''eee''}), nextAddr = 1\<rparr>
          \<lparr>pages = [tracesResponse TRACES], pageParams = [7]\<rparr>)
     = Inr TRACES
   \<and> pages \<lparr>pages = [\<lparr>runs = Some [makeRun ''aaa'' ''Run aaa'', makeRun ''bbb'' ''Run bbb'']\<rparr>],
            pageParams = [0]\<rparr>
     = pages \<lparr>pages = [\<lparr>runs = Some [makeRun ''aaa'' ''Run aaa'', makeRun ''bbb'' ''Run bbb'']\<rparr>],
              pageParams = [7]\<rparr>
   \<and> fst (selectRuns_heap \<lparr>objs = (\<lambda>a. {}), nextAddr = 0\<rparr>
          \<lparr>pages = [\<lparr>runs = Some [makeRun ''aaa'' ''Run aaa'', makeRun ''bbb'' ''Run bbb'']\<rparr>],
           pageParams = [0]\<rparr>)
     = Inr [makeRun ''aaa'' ''Run aaa'', makeRun ''bbb'' ''Run bbb'']
   \<and> fst (selectRuns_heap \<lparr>objs = (\<lambda>a. {})(0 := {''aaa'', ''bbb''}), nextAddr = 1\<rparr>
          \<lparr>pages = [\<lparr>runs = Some [makeRun ''aaa'' ''Run aaa'', makeRun ''bbb'' ''Run bbb'']\<rparr>],
           pageParams = [7]\<rparr>)
     = Inr [makeRun ''aaa'' ''Run aaa'', makeRun ''bbb'' ''Run bbb'']"
  using select_deterministic
          [of "\<lparr>pages = [tracesResponse TRACES], pageParams = [0]\<rparr>"
              "\<lparr>pages = [tracesResponse TRACES], pageParams = [7]\<rparr>"
              "\<lparr>objs = (\<lambda>a. {}), nextAddr = 0\<rparr>"
              "\<lparr>objs = (\<lambda>a. {})(0 := {''aaa'', ''bbb'', ''ccc'', ''ddd'', ''eee''}), nextAddr = 1\<rparr>"
              "\<lparr>pages = [\<lparr>runs = Some [makeRun ''aaa'' ''Run aaa'', makeRun ''bbb'' ''Run bbb'']\<rparr>],
                pageParams = [0]\<rparr>"
              "\<lparr>pages = [\<lparr>runs = Some [makeRun ''aaa'' ''Run aaa'', makeRun ''bbb'' ''Run bbb'']\<rparr>],
                pageParams = [7]\<rparr>"]
  by (simp add: fixture_defs spans_or_empty_def selectTraces_heap_def selectRuns_heap_def
                new_Set_def Set_has_def Set_add_def insert_commute)

text \<open>
  Claim C9. For every page sequence in which every page's record sequence is present,
  the traces projector (keyed by \<open>traceId\<close> over \<open>page.spans\<close>) and the workflow-runs
  projector (keyed by \<open>runId\<close> over \<open>page.runs\<close>) compute the same deduplication up
  to renaming the identifier and the record-sequence field: both keep exactly the first
  occurrence of each identifier in flattening order, and the runs select applied to
  the renamed pages gives the renamed output of the traces select.
\<close>

theorem selects_same_deduplication:
  "selectTraces d = Inr (first_occurrences traceId (concat (map spans_or_empty (pages d))))
   \<and> ((\<forall>p\<in>set (pages r). runs p \<noteq> None)
      \<longrightarrow> selectRuns r = Inr (first_occurrences runId (concat (map page_runs (pages r)))))
   \<and> ((\<forall>p\<in>set (pages d). spans p \<noteq> None)
      \<longrightarrow> selectRuns \<lparr>pages = map as_runs_page (pages d), pageParams = pageParams d\<rparr>
          = map_sum id (map as_run) (selectTraces d))"
proof (intro conjI impI)
  show "selectTraces d = Inr (first_occurrences traceId (concat (map spans_or_empty (pages d))))"
    by (simp add: selectTraces_eq keep_unseen_first_occurrences)
next
  assume "\<forall>p\<in>set (pages r). runs p \<noteq> None"
  then show "selectRuns r = Inr (first_occurrences runId (concat (map page_runs (pages r))))"
    by (simp add: selectRuns_eq keep_unseen_first_occurrences)
next
  assume present: "\<forall>p\<in>set (pages d). spans p \<noteq> None"
  let ?r = "\<lparr>pages = map as_runs_page (pages d), pageParams = pageParams d\<rparr>"
  from present have "\<forall>q\<in>set (pages ?r). runs q \<noteq> None"
    by (auto simp: as_runs_page_def)
  then have "selectRuns ?r = Inr (keep_unseen runId {} (concat (map page_runs (pages ?r))))"
    by (rule selectRuns_eq)
  also have "concat (map page_runs (pages ?r)) = map as_run (concat (map spans_or_empty (pages d)))"
    by (simp add: map_concat o_def page_runs_as_runs_page)
  also have "keep_unseen runId {} (map as_run (concat (map spans_or_empty (pages d))))
               = map as_run (keep_unseen traceId {} (concat (map spans_or_empty (pages d))))"
    by (rule keep_unseen_map) (simp add: as_run_def)
  finally show "selectRuns ?r = map_sum id (map as_run) (selectTraces d)"
    by (simp add: selectTraces_eq)
qed

theorem selects_same_deduplication_witness:
  "selectTraces
     \<lparr>pages = [\<lparr>spans = Some [makeSpan ''aaa'' ''Trace aaa'', makeSpan ''bbb'' ''Trace bbb''],
                pagination = None\<rparr>,
               \<lparr>spans = Some [makeSpan ''bbb'' ''Trace bbb'', makeSpan ''ccc'' ''Trace ccc''],
                pagination = None\<rparr>], pageParams = [0, 1]\<rparr>
     = Inr (first_occurrences traceId
         [makeSpan ''aaa'' ''Trace aaa'', makeSpan ''bbb'' ''Trace bbb'',
          makeSpan ''bbb'' ''Trace bbb'', makeSpan ''ccc'' ''Trace ccc''])
   \<and> first_occurrences traceId
         [makeSpan ''aaa'' ''Trace aaa'', makeSpan ''bbb'' ''Trace bbb'',
          makeSpan ''bbb'' ''Trace bbb'', makeSpan ''ccc'' ''Trace ccc'']
     = [makeSpan ''aaa'' ''Trace aaa'', makeSpan ''bbb'' ''Trace bbb'', makeSpan ''ccc'' ''Trace ccc'']
   \<and> spans \<lparr>spans = Some [makeSpan ''aaa'' ''Trace aaa'', makeSpan ''bbb'' ''Trace bbb''],
            pagination = None\<rparr> \<noteq> None
   \<and> spans \<lparr>spans = Some [makeSpan ''bbb'' ''Trace bbb'', makeSpan ''ccc'' ''Trace ccc''],
            pagination = None\<rparr> \<noteq> None
   \<and> runs \<lparr>runs = Some [makeRun ''aaa'' ''Run aaa'', makeRun ''bbb'' ''Run bbb'']\<rparr> \<noteq> None
   \<and> runs \<lparr>runs = Some [makeRun ''bbb'' ''Run bbb'', makeRun ''ccc'' ''Run ccc'']\<rparr> \<noteq> None
   \<and> selectRuns
     \<lparr>pages = [\<lparr>runs = Some [makeRun ''aaa'' ''Run aaa'', makeRun ''bbb'' ''Run bbb'']\<rparr>,
               \<lparr>runs = Some [makeRun ''bbb'' ''Run bbb'', makeRun ''ccc'' ''Run ccc'']\<rparr>],
      pageParams = [0, 1]\<rparr>
     = Inr [makeRun ''aaa'' ''Run aaa'', makeRun ''bbb'' ''Run bbb'', makeRun ''ccc'' ''Run ccc'']
   \<and> selectRuns
     \<lparr>pages = map as_runs_page
                [\<lparr>spans = Some [makeSpan ''aaa'' ''Trace aaa'', makeSpan ''bbb'' ''Trace bbb''],
                  pagination = None\<rparr>,
                 \<lparr>spans = Some [makeSpan ''bbb'' ''Trace bbb'', makeSpan ''ccc'' ''Trace ccc''],
                  pagination = None\<rparr>], pageParams = [0, 1]\<rparr>
     = Inr [makeRun ''aaa'' ''Trace aaa'', makeRun ''bbb'' ''Trace bbb'', makeRun ''ccc'' ''Trace ccc'']"
  using selects_same_deduplication
     [of "\<lparr>pages = [\<lparr>spans = Some [makeSpan ''aaa'' ''Trace aaa'', makeSpan ''bbb'' ''Trace bbb''],
                pagination = None\<rparr>,
               \<lparr>spans = Some [makeSpan ''bbb'' ''Trace bbb'', makeSpan ''ccc'' ''Trace ccc''],
                pagination = None\<rparr>], pageParams = [0, 1]\<rparr>"
         "\<lparr>pages = [\<lparr>runs = Some [makeRun ''aaa'' ''Run aaa'', makeRun ''bbb'' ''Run bbb'']\<rparr>,
               \<lparr>runs = Some [makeRun ''bbb'' ''Run bbb'', makeRun ''ccc'' ''Run ccc'']\<rparr>],
      pageParams = [0, 1]\<rparr>"]
  by (simp add: fixture_defs eval_defs as_run_def as_runs_page_def)

section \<open>Requesting the next page\<close>

text \<open>
  Claim C7. A further page is requested exactly when the most recent page indicated
  more data. In the traces hook \<open>getNextPageParam\<close> returns \<open>lastPageParam + 1\<close> if
  and only if the last page's \<open>pagination.hasMore\<close> is true, and \<open>undefined\<close>
  otherwise. In the workflow-runs hook, for a last page that holds its runs (as the
  hook's page type has it), \<open>getNextPageParam\<close> returns \<open>lastPageParam + 1\<close> if and
  only if the page holds at least \<open>PER_PAGE = 20\<close> runs, and \<open>undefined\<close> otherwise.
  The value returned is the JavaScript sum \<open>lastPageParam + 1\<close>; it is the successor
  of \<open>lastPageParam\<close> for every page parameter below \<open>2^53\<close>.
\<close>

theorem next_page_iff_more_data:
  "(traces_getNextPageParam lastPage n = Some (js_plus_one n)
      \<longleftrightarrow> (\<exists>p pg. lastPage = Some p \<and> pagination p = Some pg \<and> hasMore pg = Some True))
   \<and> (traces_getNextPageParam lastPage n = None
      \<longleftrightarrow> \<not> (\<exists>p pg. lastPage = Some p \<and> pagination p = Some pg \<and> hasMore pg = Some True))
   \<and> (n < 2 ^ 53 \<longrightarrow>
        (traces_getNextPageParam lastPage n = Some (n + 1)
           \<longleftrightarrow> (\<exists>p pg. lastPage = Some p \<and> pagination p = Some pg \<and> hasMore pg = Some True)))
   \<and> (runs lastRuns = Some rs \<longrightarrow>
        (runs_getNextPageParam lastRuns m = Inr (Some (js_plus_one m)) \<longleftrightarrow> PER_PAGE \<le> length rs)
      \<and> (runs_getNextPageParam lastRuns m = Inr None \<longleftrightarrow> \<not> PER_PAGE \<le> length rs)
      \<and> (m < 2 ^ 53 \<longrightarrow>
           (runs_getNextPageParam lastRuns m = Inr (Some (m + 1)) \<longleftrightarrow> PER_PAGE \<le> length rs)))
   \<and> PER_PAGE = 20"
proof -
  have traces: "traces_getNextPageParam lastPage k =
                  (if \<exists>p pg. lastPage = Some p \<and> pagination p = Some pg \<and> hasMore pg = Some True
                   then Some (js_plus_one k) else None)" for k
    by (auto simp: traces_getNextPageParam_def Option.bind_eq_Some_conv
             split: option.splits bool.splits)
  have runs: "runs_getNextPageParam lastRuns k =
                Inr (if PER_PAGE \<le> length rs then Some (js_plus_one k) else None)"
    if "runs lastRuns = Some rs" for k
    using that by (simp add: runs_getNextPageParam_def)
  have exact: "js_plus_one k = k + 1" if "k < 2 ^ 53" for k
    using that by (simp add: js_plus_one_def)
  show ?thesis
    by (simp add: traces runs exact PER_PAGE_def)
qed

text \<open>
  The tests of the repository: \<open>hasMore: true\<close> at page parameter 5 gives 6; a page of
  twenty runs at page parameter 3 gives 4; a page of two runs gives \<open>undefined\<close>.
\<close>

theorem next_page_iff_more_data_witness:
  "(5::nat) < 2 ^ 53
   \<and> traces_getNextPageParam
      (Some \<lparr>spans = None, pagination = Some \<lparr>hasMore = Some True\<rparr>\<rparr>) 5 = Some 6
   \<and> runs \<lparr>runs = Some (replicate 20 (makeRun ''run'' ''Run''))\<rparr>
       = Some (replicate 20 (makeRun ''run'' ''Run''))
   \<and> (3::nat) < 2 ^ 53
   \<and> runs_getNextPageParam \<lparr>runs = Some (replicate 20 (makeRun ''run'' ''Run''))\<rparr> 3
       = Inr (Some 4)
   \<and> runs \<lparr>runs = Some [makeRun ''run-1'' ''Run run-1'', makeRun ''run-2'' ''Run run-2'']\<rparr>
       = Some [makeRun ''run-1'' ''Run run-1'', makeRun ''run-2'' ''Run run-2'']
   \<and> runs_getNextPageParam
       \<lparr>runs = Some [makeRun ''run-1'' ''Run run-1'', makeRun ''run-2'' ''Run run-2'']\<rparr> 0
       = Inr None"
proof -
  let ?more = "Some \<lparr>spans = None, pagination = Some \<lparr>hasMore = Some True\<rparr>\<rparr>"
  let ?full = "replicate 20 (makeRun ''run'' ''Run'')"
  let ?two = "[makeRun ''run-1'' ''Run run-1'', makeRun ''run-2'' ''Run run-2'']"
  have five: "(5::nat) < 2 ^ 53" and three: "(3::nat) < 2 ^ 53"
    by simp_all
  have more: "\<exists>p pg. ?more = Some p \<and> pagination p = Some pg \<and> hasMore pg = Some True"
    by simp
  have full: "runs \<lparr>runs = Some ?full\<rparr> = Some ?full" and two: "runs \<lparr>runs = Some ?two\<rparr> = Some ?two"
    by simp_all
  have enough: "PER_PAGE \<le> length ?full" and few: "\<not> PER_PAGE \<le> length ?two"
    by (simp_all add: PER_PAGE_def)
  from next_page_iff_more_data [of ?more 5 "\<lparr>runs = Some ?full\<rparr>" ?full 3] five more
  have "traces_getNextPageParam ?more 5 = Some (5 + 1)"
    by blast
  moreover
  from next_page_iff_more_data [of ?more 5 "\<lparr>runs = Some ?full\<rparr>" ?full 3] three full enough
  have "runs_getNextPageParam \<lparr>runs = Some ?full\<rparr> 3 = Inr (Some (3 + 1))"
    by blast
  moreover
  from next_page_iff_more_data [of None 0 "\<lparr>runs = Some ?two\<rparr>" ?two 0] two few
  have "runs_getNextPageParam \<lparr>runs = Some ?two\<rparr> 0 = Inr None"
    by blast
  ultimately show ?thesis
    using five three full two by simp
qed

text \<open>
  Claim C10. In the traces hook \<open>getNextPageParam\<close> is total at the interface
  boundary: where \<open>lastPage\<close> is undefined, or \<open>lastPage.pagination\<close> is missing, or
  \<open>hasMore\<close> is missing or false, it returns \<open>undefined\<close>. The optional chaining
  leaves the callback no path that throws, so its model has no error branch.
\<close>

theorem traces_next_page_total:
  "traces_getNextPageParam None n = None
   \<and> (pagination p = None \<longrightarrow> traces_getNextPageParam (Some p) n = None)
   \<and> (pagination p = Some pg \<and> (hasMore pg = None \<or> hasMore pg = Some False)
        \<longrightarrow> traces_getNextPageParam (Some p) n = None)"
  by (auto simp: traces_getNextPageParam_def)

theorem traces_next_page_total_witness:
  "traces_getNextPageParam None 0 = None
   \<and> pagination \<lparr>spans = Some [], pagination = None\<rparr> = None
   \<and> traces_getNextPageParam (Some \<lparr>spans = Some [], pagination = None\<rparr>) 0 = None
   \<and> pagination \<lparr>spans = None, pagination = Some \<lparr>hasMore = None\<rparr>\<rparr> = Some \<lparr>hasMore = None\<rparr>
   \<and> hasMore \<lparr>hasMore = None\<rparr> = None
   \<and> traces_getNextPageParam (Some \<lparr>spans = None, pagination = Some \<lparr>hasMore = None\<rparr>\<rparr>) 0 = None
   \<and> pagination \<lparr>spans = None, pagination = Some \<lparr>hasMore = Some False\<rparr>\<rparr>
       = Some \<lparr>hasMore = Some False\<rparr>
   \<and> hasMore \<lparr>hasMore = Some False\<rparr> = Some False
   \<and> traces_getNextPageParam
       (Some \<lparr>spans = None, pagination = Some \<lparr>hasMore = Some False\<rparr>\<rparr>) 2 = None"
  using traces_next_page_total
          [of 0 "\<lparr>spans = Some [], pagination = None\<rparr>" "\<lparr>hasMore = None\<rparr>"]
        traces_next_page_total
          [of 0 "\<lparr>spans = None, pagination = Some \<lparr>hasMore = None\<rparr>\<rparr>" "\<lparr>hasMore = None\<rparr>"]
        traces_next_page_total
          [of 2 "\<lparr>spans = None, pagination = Some \<lparr>hasMore = Some False\<rparr>\<rparr>"
              "\<lparr>hasMore = Some False\<rparr>"]
  by simp

end
